theory Spec2Isabelle
  imports Main "HOL-Library.AList"
begin

section \<open>The docker-worker task listener\<close>

text \<open>
  A shallow embedding of \<^verbatim>\<open>src/workers/docker-worker/src/task_listener.js\<close>.
  The listener object is a record that every method takes and returns. The calls the
  listener makes on its collaborators (log and metric sinks, task handlers, device
  manager and device handles, garbage collector, queue, host) are appended, in call
  order, to the field \<open>trace\<close>. What a collaborator answers, and whether it throws, is a
  parameter of the method that calls it; the log and metric sinks, \<^verbatim>\<open>release()\<close>, the
  shutdown manager and the host are taken to return. A clock reading
  (\<^verbatim>\<open>Date.now()\<close>) is the parameter \<open>now\<close> of each synchronous stretch of code.

  The methods are \<^verbatim>\<open>async\<close>: at an \<^verbatim>\<open>await\<close> the other tasks of the event loop run
  and may change the listener. \<^verbatim>\<open>runTask\<close> is modelled stretch by stretch, from one
  \<^verbatim>\<open>await\<close> to the next. In \<^verbatim>\<open>taskPoll\<close> and \<^verbatim>\<open>shutdown\<close>, what the other tasks do
  during a wait is a parameter (\<open>w_others\<close>, \<open>w_waits\<close>, \<open>w_pausing\<close>). The waits
  inside \<^verbatim>\<open>getTasks\<close> and \<^verbatim>\<open>availableCapacity\<close> are not split: each of the two is one
  function of the listener.
\<close>

subsection \<open>Data\<close>

text \<open>A device handle (\<^verbatim>\<open>{id, release()}\<close>) and a task handler (class \<^verbatim>\<open>Task\<close>,
  whose source is not part of the listener): the fields the listener reads, and what its
  \<^verbatim>\<open>cancel\<close> and \<^verbatim>\<open>abort\<close> do when called (\<open>Some e\<close>: throw \<open>e\<close>).\<close>

record device =
  d_id :: string

record handler =
  h_taskId :: string
  h_runId :: int
  h_cancel :: "string option"
  h_abort :: "string option"

text \<open>The object \<^verbatim>\<open>runningState\<close> of \<^verbatim>\<open>runTask\<close>. \<open>devices\<close> is a JavaScript object
  used as a dictionary: an association list in insertion order, the order of
  \<^verbatim>\<open>Object.keys\<close> for device kinds that are names (integer-like keys, which
  \<^verbatim>\<open>Object.keys\<close> lists first, are not device kinds). \<open>handler\<close> is attached only after
  the devices are leased.\<close>

record running_state =
  startTime :: int
  devices :: "(string \<times> device) list"
  taskId :: string
  runId :: int
  handler :: "handler option"

datatype field = FStr string string | FInt string int

datatype log_event =
    TaskQueue handler int
  | TaskStart handler
  | TaskFinish handler
  | InstanceShutdown

datatype event =
    Log string "field list"
  | Debug string
  | LogEvent log_event
  | Count string int
  | Measure string int
  | HandlerStart handler
  | HandlerCancel handler string
  | HandlerAbort handler string
  | GetDevice string
  | DeviceRelease string device
  | GcSweep bool
  | ExceedsDiskspaceThreshold int
  | ClaimWork int
  | PurgeCaches
  | OnIdle
  | OnWorking
  | Sleep nat
  | ClearTimeout
  | HostShutdown

text \<open>The fields of \<^verbatim>\<open>TaskListener\<close> and of its \<^verbatim>\<open>runtime\<close> that the methods
  below read or write.\<close>

record listener =
  capacity :: int
  restrictCPU :: bool
  runningTasks :: "running_state list"
  lastKnownCapacity :: int
  totalRunTime :: int
  lastTaskEvent :: int
  paused :: bool
  trace :: "event list"

definition emit :: "event list \<Rightarrow> listener \<Rightarrow> listener" where
  "emit evs s = s\<lparr>trace := trace s @ evs\<rparr>"

text \<open>A method that can throw: the listener as the method left it, and the exception.\<close>

datatype outcome = Returns listener | Throws string listener

subsection \<open>availableCapacity\<close>

text \<open>\<open>probe\<close> is what \<^verbatim>\<open>deviceManager.getAvailableCapacity()\<close> settles to:
  \<open>Inr n\<close>, or \<open>Inl e\<close> when it throws \<open>e\<close>. The method has no other call that is left
  uncaught, so its result is a plain pair.\<close>

definition availableCapacity :: "string + int \<Rightarrow> listener \<Rightarrow> int \<times> listener" where
  "availableCapacity probe s =
     (let (deviceCapacity, s1) =
            (case probe of
               Inr n \<Rightarrow> (n, s)
             | Inl e \<Rightarrow>
                 (0, emit [Log ''[alert-operator] error determining device capacity''
                             [FStr ''message'' e]] s));
          runningCapacity = max (capacity s1 - int (length (runningTasks s1))) 0;
          hostCapacity = min runningCapacity deviceCapacity;
          s2 = s1\<lparr>lastKnownCapacity := hostCapacity\<rparr>;
          s3 = (if hostCapacity < runningCapacity
                then emit [Log ''[info] host capacity adjusted'' []] s2
                else s2)
      in (hostCapacity, s3))"

subsection \<open>The registry of running tasks\<close>

text \<open>\<^verbatim>\<open>cleanupRunningState\<close>: \<open>None\<close> is a falsy \<^verbatim>\<open>state\<close>. \<^verbatim>\<open>state.devices\<close> is
  always an object here, and an object has one value for each of its keys, so the loop
  over \<^verbatim>\<open>Object.keys\<close> calls \<^verbatim>\<open>release()\<close> on the entries of the association list
  in order.\<close>

definition cleanupRunningState :: "running_state option \<Rightarrow> listener \<Rightarrow> listener" where
  "cleanupRunningState state s =
     (case state of
        None \<Rightarrow> s
      | Some st \<Rightarrow> emit (map (\<lambda>(kind, d). DeviceRelease kind d) (devices st)) s)"


definition recordCapacity :: "int \<Rightarrow> listener \<Rightarrow> listener" where
  "recordCapacity now s =
     (emit [Measure ''capacity.duration.lastTaskEvent'' (now - lastTaskEvent s),
            Count ''capacity.idle'' (lastKnownCapacity s),
            Count ''capacity.runningTasks'' (int (length (runningTasks s))),
            Count ''capacity.total'' (lastKnownCapacity s + int (length (runningTasks s)))] s)
       \<lparr>lastTaskEvent := now\<rparr>"

definition addRunningTask :: "int \<Rightarrow> running_state \<Rightarrow> listener \<Rightarrow> listener" where
  "addRunningTask now runningState s =
     (let s1 = recordCapacity now s
      in s1\<lparr>runningTasks := runningTasks s1 @ [runningState]\<rparr>)"

text \<open>\<^verbatim>\<open>Array.prototype.findIndex\<close> (\<open>None\<close> is its -1) and \<^verbatim>\<open>splice(i, 1)\<close>.\<close>

fun findIndex :: "('a \<Rightarrow> bool) \<Rightarrow> 'a list \<Rightarrow> nat option" where
  "findIndex p [] = None"
| "findIndex p (x # xs) = (if p x then Some 0 else map_option Suc (findIndex p xs))"

definition splice1 :: "nat \<Rightarrow> 'a list \<Rightarrow> 'a list" where
  "splice1 i xs = take i xs @ drop (Suc i) xs"

definition removeRunningTask :: "int \<Rightarrow> running_state \<Rightarrow> listener \<Rightarrow> listener" where
  "removeRunningTask now runningState s =
     (case findIndex (\<lambda>runningTask. taskId runningTask = taskId runningState
                                   \<and> runId runningTask = runId runningState)
                     (runningTasks s) of
        None \<Rightarrow>
          cleanupRunningState (Some runningState)
            (emit [Log ''[warning] running task removal error''
                     [FStr ''taskId'' (taskId runningState), FInt ''runId'' (runId runningState),
                      FStr ''err'' ''Could not find the task Id in the list of running tasks'']] s)
      | Some taskIndex \<Rightarrow>
          (let s1 = recordCapacity now s;
               s2 = cleanupRunningState (Some runningState) s1;
               s3 = s2\<lparr>totalRunTime := totalRunTime s2 + (now - startTime runningState)\<rparr>;
               s4 = s3\<lparr>runningTasks := splice1 taskIndex (runningTasks s3)\<rparr>
           in s4\<lparr>lastKnownCapacity := lastKnownCapacity s4 + 1\<rparr>))"

subsection \<open>cancelTask\<close>

text \<open>A cancellation message: \<^verbatim>\<open>payload.runId\<close>, \<^verbatim>\<open>payload.status.taskId\<close> and, for
  each element of \<^verbatim>\<open>payload.status.runs\<close>, its \<^verbatim>\<open>reasonResolved\<close> (\<open>None\<close> when the run
  has none). Reading \<^verbatim>\<open>runs[runId].reasonResolved\<close> outside the array is a TypeError,
  and so is reading \<^verbatim>\<open>handler.status\<close> of a registry entry without a handler.\<close>

record message =
  m_runId :: int
  m_taskId :: string
  m_runs :: "string option list"

definition run_at :: "'a list \<Rightarrow> int \<Rightarrow> 'a option" where
  "run_at xs i = (if 0 \<le> i \<and> i < int (length xs) then Some (xs ! nat i) else None)"

fun find_state :: "string \<Rightarrow> int \<Rightarrow> running_state list
                     \<Rightarrow> string + (running_state \<times> handler) option" where
  "find_state tid rid [] = Inr None"
| "find_state tid rid (state # rest) =
     (case handler state of
        None \<Rightarrow> Inl ''TypeError''
      | Some h \<Rightarrow>
          if h_taskId h = tid \<and> h_runId h = rid then Inr (Some (state, h))
          else find_state tid rid rest)"

definition cancelTask :: "message \<Rightarrow> listener \<Rightarrow> outcome" where
  "cancelTask msg s =
     (case run_at (m_runs msg) (m_runId msg) of
        None \<Rightarrow> Throws ''TypeError'' s
      | Some reason \<Rightarrow>
          if reason \<noteq> Some ''canceled'' then Returns s
          else
            (case find_state (m_taskId msg) (m_runId msg) (runningTasks s) of
               Inl e \<Rightarrow> Throws e s
             | Inr None \<Rightarrow> Returns (emit [Debug ''task not found to cancel''] s)
             | Inr (Some (state, h)) \<Rightarrow>
                 (let s1 = emit [Log ''cancelling task'' [FStr ''taskId'' (m_taskId msg)],
                                 HandlerCancel h ''canceled''] s
                  in case h_cancel h of
                       Some e \<Rightarrow> Throws e s1
                     | None \<Rightarrow> Returns (cleanupRunningState (Some state) s1))))"

subsection \<open>runTask\<close>

text \<open>A claim: \<^verbatim>\<open>status.taskId\<close>, the length of \<^verbatim>\<open>status.runs\<close>, \<^verbatim>\<open>runId\<close> and
  \<^verbatim>\<open>task\<close> (\<open>None\<close> when the claim response has none). Of the task: \<^verbatim>\<open>created\<close> and
  the keys of \<^verbatim>\<open>payload.capabilities.devices\<close> (\<open>None\<close> when there is no such object).\<close>

record task =
  created :: int
  capability_devices :: "string list option"

record claim =
  c_taskId :: string
  c_runs :: nat
  c_runId :: int
  c_task :: "task option"

text \<open>What the collaborators answer during one poll cycle and the tasks it starts.
  \<open>Inl e\<close> and \<open>Some e\<close> are a call that throws \<open>e\<close>. What \<^verbatim>\<open>getDevice(kind)\<close>
  answers may depend on the devices the task holds already. The last three fields are
  what the other tasks of the event loop do to the listener while the poll waits: for
  \<^verbatim>\<open>getTasks\<close>, during each 100 ms wait of an immediate shutdown, and for
  \<^verbatim>\<open>pause()\<close> in \<^verbatim>\<open>shutdown\<close>.\<close>

datatype exit_intent = ExitImmediate | ExitGraceful | ExitNone

record world =
  w_deviceCapacity :: "string + int"
  w_sweep :: "string option"
  w_exceedsDiskspaceThreshold :: "string + bool"
  w_claimWork :: "int \<Rightarrow> string + claim list"
  w_purgeCaches :: "string option"
  w_getDevice :: "claim \<Rightarrow> (string \<times> device) list \<Rightarrow> string \<Rightarrow> string + device"
  w_newTask :: "claim \<Rightarrow> string + handler"
  w_shouldExit :: exit_intent
  w_others :: "listener \<Rightarrow> listener"
  w_waits :: "(listener \<Rightarrow> listener) list"
  w_pausing :: "listener \<Rightarrow> listener"

text \<open>\<^verbatim>\<open>runTask\<close> is an \<^verbatim>\<open>async\<close> function: it runs in stretches, each from one
  \<^verbatim>\<open>await\<close> to the next, and other tasks run in between. It waits once for each
  device kind of the payload (\<^verbatim>\<open>await this.deviceManager.getDevice(device)\<close>) and once
  for \<^verbatim>\<open>taskHandler.start()\<close>. The result of a stretch is where the call stands then:
  waiting for the device of a kind, with \<^verbatim>\<open>runningState\<close>, the task and the kinds still
  to come; waiting for \<^verbatim>\<open>start()\<close>; or at its end.\<close>

datatype progress =
    AwaitDevice running_state task string "string list" listener
  | Suspended running_state handler listener
  | Finished listener

datatype settled = Resolved | Rejected string

text \<open>The \<^verbatim>\<open>catch\<close> block.\<close>

definition runTask_catch :: "int \<Rightarrow> claim \<Rightarrow> running_state \<Rightarrow> string \<Rightarrow> listener \<Rightarrow> listener" where
  "runTask_catch now claim runningState e s =
     (let s1 = removeRunningTask now runningState s
      in case c_task claim of
           Some task \<Rightarrow>
             emit [Log ''task error'' [FStr ''taskId'' (c_taskId claim), FStr ''message'' e]] s1
         | None \<Rightarrow> emit [Log ''task error'' [FStr ''message'' e]] s1)"

text \<open>An exception \<open>e\<close> in the \<^verbatim>\<open>try\<close> block: the \<^verbatim>\<open>catch\<close> block, then the statement
  after the \<^verbatim>\<open>try\<close>.\<close>

definition runTask_throw :: "int \<Rightarrow> claim \<Rightarrow> running_state \<Rightarrow> string \<Rightarrow> listener \<Rightarrow> progress" where
  "runTask_throw now claim runningState e s =
     Finished (emit [Count ''task.error'' 1] (runTask_catch now claim runningState e s))"

text \<open>From \<^verbatim>\<open>new Task(...)\<close> to the call of \<^verbatim>\<open>taskHandler.start()\<close>.\<close>

definition runTask_admit :: "world \<Rightarrow> int \<Rightarrow> claim \<Rightarrow> task \<Rightarrow> running_state \<Rightarrow> listener
                              \<Rightarrow> progress" where
  "runTask_admit w now claim task runningState s =
     (case w_newTask w claim of
        Inl e \<Rightarrow> runTask_throw now claim runningState e s
      | Inr taskHandler \<Rightarrow>
          (let rs = runningState\<lparr>handler := Some taskHandler\<rparr>;
               s1 = addRunningTask now rs s;
               s2 = emit [LogEvent (TaskQueue taskHandler (created task)),
                          LogEvent (TaskStart taskHandler),
                          HandlerStart taskHandler] s1
           in Suspended rs taskHandler s2))"

text \<open>The head of the loop over the device kinds of the payload: with a kind left, call
  \<^verbatim>\<open>getDevice\<close> for it and wait; with none left, go on after the loop.\<close>

definition runTask_devices :: "world \<Rightarrow> int \<Rightarrow> claim \<Rightarrow> task \<Rightarrow> running_state \<Rightarrow> string list
                                \<Rightarrow> listener \<Rightarrow> progress" where
  "runTask_devices w now claim task runningState kinds s =
     (case kinds of
        [] \<Rightarrow> runTask_admit w now claim task runningState s
      | kind # rest \<Rightarrow> AwaitDevice runningState task kind rest (emit [GetDevice kind] s))"

text \<open>\<^verbatim>\<open>if (taskCapabilities.devices) { ... }\<close> and what follows it.\<close>

definition runTask_payload :: "world \<Rightarrow> int \<Rightarrow> claim \<Rightarrow> task \<Rightarrow> running_state \<Rightarrow> listener
                                \<Rightarrow> progress" where
  "runTask_payload w now claim task runningState s =
     (case capability_devices task of
        None \<Rightarrow> runTask_admit w now claim task runningState s
      | Some kinds \<Rightarrow>
          runTask_devices w now claim task runningState kinds
            (emit [Debug ''Aquiring task payload specific devices''] s))"

text \<open>The first stretch: the call of \<^verbatim>\<open>runTask\<close> up to its first \<^verbatim>\<open>await\<close>. The CPU
  device is leased without an \<^verbatim>\<open>await\<close>.\<close>

definition runTask_begin :: "world \<Rightarrow> int \<Rightarrow> claim \<Rightarrow> listener \<Rightarrow> progress" where
  "runTask_begin w now claim s =
     (let runningState = \<lparr>startTime = now, devices = [], taskId = c_taskId claim,
                           runId = c_runId claim, handler = None\<rparr>;
          s1 = emit [Log ''run task'' [FStr ''taskId'' (taskId runningState),
                                        FInt ''runId'' (runId runningState)]] s
      in case c_task claim of
           None \<Rightarrow> runTask_throw now claim runningState ''TypeError'' s1
         | Some task \<Rightarrow>
             (let s2 = (if c_runs claim = 0
                        then emit [Measure ''timeToFirstClaim'' (now - created task)] s1
                        else s1)
              in if restrictCPU s2
                 then
                   (let s3 = emit [GetDevice ''cpu''] s2
                    in case w_getDevice w claim (devices runningState) ''cpu'' of
                         Inl e \<Rightarrow> runTask_throw now claim runningState e s3
                       | Inr d \<Rightarrow>
                           runTask_payload w now claim task
                             (runningState\<lparr>devices := AList.update ''cpu'' d (devices runningState)\<rparr>)
                             s3)
                 else runTask_payload w now claim task runningState s2))"

text \<open>A stretch that starts when the lease of \<open>kind\<close> settles: with an exception, or with a
  device, which is stored in \<^verbatim>\<open>runningState.devices[kind]\<close> before the loop goes on (a
  device held under the same kind is replaced). An exception of \<^verbatim>\<open>getDevice\<close> is taken
  to arrive as a device does, when the wait ends.\<close>

definition runTask_leased :: "world \<Rightarrow> int \<Rightarrow> claim \<Rightarrow> task \<Rightarrow> running_state \<Rightarrow> string
                               \<Rightarrow> string list \<Rightarrow> listener \<Rightarrow> progress" where
  "runTask_leased w now claim task runningState kind kinds s =
     (case w_getDevice w claim (devices runningState) kind of
        Inl e \<Rightarrow> runTask_throw now claim runningState e s
      | Inr d \<Rightarrow>
          runTask_devices w now claim task
            (runningState\<lparr>devices := AList.update kind d (devices runningState)\<rparr>) kinds s)"

text \<open>The last stretch, from the moment \<^verbatim>\<open>start()\<close> settles: the \<^verbatim>\<open>finally\<close> block,
  then the retirement or the \<^verbatim>\<open>catch\<close> block, then the statement after the \<^verbatim>\<open>try\<close>.\<close>

definition runTask_resume :: "int \<Rightarrow> claim \<Rightarrow> running_state \<Rightarrow> handler \<Rightarrow> settled
                               \<Rightarrow> listener \<Rightarrow> listener" where
  "runTask_resume now claim runningState taskHandler result s =
     (let s1 = emit [LogEvent (TaskFinish taskHandler)] s;
          s2 = (case result of
                  Resolved \<Rightarrow> removeRunningTask now runningState s1
                | Rejected e \<Rightarrow> runTask_catch now claim runningState e s1)
      in emit [Count ''task.error'' 1] s2)"

text \<open>A whole call of \<^verbatim>\<open>runTask\<close> when the other tasks do \<open>others\<close> to the listener
  during each of its waits: the stretches for the devices, one after the other, and then
  the last stretch with what \<^verbatim>\<open>start()\<close> settled to.\<close>

function runTask_leases :: "world \<Rightarrow> int \<Rightarrow> claim \<Rightarrow> (listener \<Rightarrow> listener) \<Rightarrow> progress
                               \<Rightarrow> progress" where
  "runTask_leases w now claim others (AwaitDevice rs task kind kinds s) =
     runTask_leases w now claim others (runTask_leased w now claim task rs kind kinds (others s))"
| "runTask_leases w now claim others (Suspended rs h s) = Suspended rs h s"
| "runTask_leases w now claim others (Finished s) = Finished s"
  by pat_completeness auto
termination
  by (relation "measure (\<lambda>(w, now, claim, others, p).
         case p of AwaitDevice rs task kind kinds s \<Rightarrow> Suc (length kinds) | _ \<Rightarrow> 0)")
     (auto simp add: runTask_leased_def runTask_devices_def runTask_admit_def runTask_throw_def
        Let_def split: sum.splits list.splits)

definition runTask :: "world \<Rightarrow> int \<Rightarrow> claim \<Rightarrow> (listener \<Rightarrow> listener) \<Rightarrow> int \<Rightarrow> settled
                        \<Rightarrow> listener \<Rightarrow> listener" where
  "runTask w now claim others now' result s =
     (case runTask_leases w now claim others (runTask_begin w now claim s) of
        Finished s1 \<Rightarrow> s1
      | Suspended rs h s1 \<Rightarrow> runTask_resume now' claim rs h result (others s1)
      | AwaitDevice rs task kind kinds s1 \<Rightarrow> s1)"

subsection \<open>getTasks and taskPoll\<close>

definition progress_listener :: "progress \<Rightarrow> listener" where
  "progress_listener p =
     (case p of
        AwaitDevice rs task kind kinds s \<Rightarrow> s
      | Suspended rs h s \<Rightarrow> s
      | Finished s \<Rightarrow> s)"

text \<open>\<^verbatim>\<open>claims.map(claim => this.runTask(claim))\<close>: each call runs its first stretch,
  and its promise is dropped. The later stretches belong to the other tasks of the event
  loop.\<close>

fun startTasks :: "world \<Rightarrow> int \<Rightarrow> claim list \<Rightarrow> listener \<Rightarrow> listener" where
  "startTasks w now [] s = s"
| "startTasks w now (claim # claims) s =
     startTasks w now claims (progress_listener (runTask_begin w now claim s))"

definition getTasks :: "world \<Rightarrow> int \<Rightarrow> listener \<Rightarrow> outcome" where
  "getTasks w now s =
     (let (n, s1) = availableCapacity (w_deviceCapacity w) s
      in if n = 0
         then Returns (emit [Debug ''not calling claimWork because capacity is zero''] s1)
         else
           (let s2 = emit [GcSweep (length (runningTasks s1) = 0)] s1
            in case w_sweep w of
                 Some e \<Rightarrow> Throws e s2
               | None \<Rightarrow>
                   (let s3 = emit [ExceedsDiskspaceThreshold n] s2
                    in case w_exceedsDiskspaceThreshold w of
                         Inl e \<Rightarrow> Throws e s3
                       | Inr True \<Rightarrow>
                           Returns (emit [Debug ''not calling claimWork because not enough disk space''] s3)
                       | Inr False \<Rightarrow>
                           (let s4 = emit [ClaimWork n] s3
                            in case w_claimWork w n of
                                 Inl e \<Rightarrow> Throws e s4
                               | Inr claims \<Rightarrow>
                                   if length claims \<noteq> 0
                                   then
                                     (let s5 = emit [PurgeCaches] s4
                                      in case w_purgeCaches w of
                                           Some e \<Rightarrow> Throws e s5
                                         | None \<Rightarrow> Returns (startTasks w now claims s5))
                                   else Returns s4))))"









subsection \<open>Observing a result\<close>

text \<open>The listener that a method leaves behind, whether it returned or threw, and the one
  a poll has reached.\<close>

definition outcome_listener :: "outcome \<Rightarrow> listener" where
  "outcome_listener r = (case r of Returns s \<Rightarrow> s | Throws e s \<Rightarrow> s)"


text \<open>Projections of a trace, each in call order: the device leases released, the
  lifecycle events, the arguments of the calls of \<^verbatim>\<open>gc.sweep\<close>; and the value of a
  counter of the monitor, the sum of what \<^verbatim>\<open>monitor.count(name, n)\<close> added to it.\<close>

definition released :: "event list \<Rightarrow> (string \<times> device) list" where
  "released tr = concat (map (\<lambda>e. case e of DeviceRelease kind d \<Rightarrow> [(kind, d)] | _ \<Rightarrow> []) tr)"

definition lifecycle :: "event list \<Rightarrow> log_event list" where
  "lifecycle tr = concat (map (\<lambda>e. case e of LogEvent l \<Rightarrow> [l] | _ \<Rightarrow> []) tr)"

definition sweeps :: "event list \<Rightarrow> bool list" where
  "sweeps tr = concat (map (\<lambda>e. case e of GcSweep full \<Rightarrow> [full] | _ \<Rightarrow> []) tr)"

definition counted :: "string \<Rightarrow> event list \<Rightarrow> int" where
  "counted name tr =
     sum_list (map (\<lambda>e. case e of Count c n \<Rightarrow> if c = name then n else 0 | _ \<Rightarrow> 0) tr)"

text \<open>Where a stretch of \<^verbatim>\<open>runTask\<close> that started from the listener \<open>s\<close> stands, in terms
  of the devices \<open>held\<close> by \<^verbatim>\<open>runningState\<close> at its end. At the end of the call it has
  released them and emitted no lifecycle event; waiting for a device it has released
  nothing and left the registry alone; waiting for \<^verbatim>\<open>start()\<close> it has released nothing,
  appended its state to the registry and ended its trace with \<^verbatim>\<open>taskQueue\<close>,
  \<^verbatim>\<open>taskStart\<close> and the call of \<^verbatim>\<open>start()\<close>. It never calls \<^verbatim>\<open>gc.sweep\<close>.\<close>

definition stretch_from :: "listener \<Rightarrow> (string \<times> device) list \<Rightarrow> task \<Rightarrow> progress \<Rightarrow> bool" where
  "stretch_from s held task p =
     (case p of
        Finished s1 \<Rightarrow>
          (\<exists>evs. trace s1 = trace s @ evs
             \<and> lifecycle evs = [] \<and> sweeps evs = [] \<and> released evs = held)
      | AwaitDevice rs task' kind kinds s1 \<Rightarrow>
          devices rs = held \<and> task' = task \<and> runningTasks s1 = runningTasks s
          \<and> (\<exists>evs. trace s1 = trace s @ evs
                \<and> lifecycle evs = [] \<and> sweeps evs = [] \<and> released evs = [])
      | Suspended rs h s1 \<Rightarrow>
          devices rs = held \<and> handler rs = Some h \<and> runningTasks s1 = runningTasks s @ [rs]
          \<and> (\<exists>evs. trace s1 = trace s @ evs @
                  [LogEvent (TaskQueue h (created task)), LogEvent (TaskStart h), HandlerStart h]
                \<and> lifecycle evs = [] \<and> sweeps evs = [] \<and> released evs = []))"

subsection \<open>Scenario inputs\<close>

text \<open>A worker with two slots, CPU restriction and no running task. A running task "X",
  run 1, that holds one leased CPU device, and the cancellation message for it.\<close>

definition example_device :: device where
  "example_device = \<lparr>d_id = ''0''\<rparr>"

definition example_handler :: handler where
  "example_handler = \<lparr>h_taskId = ''X'', h_runId = 1, h_cancel = None, h_abort = None\<rparr>"

definition example_state :: running_state where
  "example_state = \<lparr>startTime = 10, devices = [(''cpu'', example_device)], taskId = ''X'',
                     runId = 1, handler = Some example_handler\<rparr>"

definition example_listener :: listener where
  "example_listener = \<lparr>capacity = 2, restrictCPU = True, runningTasks = [],
                        lastKnownCapacity = 2, totalRunTime = 0, lastTaskEvent = 0,
                        paused = False, trace = []\<rparr>"

definition example_cancel :: message where
  "example_cancel = \<lparr>m_runId = 1, m_taskId = ''X'', m_runs = [None, Some ''canceled'']\<rparr>"

text \<open>Collaborators for which every lease and every handler construction succeeds and
  the queue returns the claims "A" and "B" (run 0, first run, no devices in the payload).
  A third claim is the task "X", run 1. \<open>no_others\<close>: nothing else happens while a
  task waits for its handler; \<open>example_cancellation\<close>: the cancellation message for "X"
  arrives meanwhile.\<close>

definition example_task :: task where
  "example_task = \<lparr>created = 0, capability_devices = None\<rparr>"

definition claim_A :: claim where
  "claim_A = \<lparr>c_taskId = ''A'', c_runs = 0, c_runId = 0, c_task = Some example_task\<rparr>"

definition claim_B :: claim where
  "claim_B = \<lparr>c_taskId = ''B'', c_runs = 0, c_runId = 0, c_task = Some example_task\<rparr>"

definition claim_X :: claim where
  "claim_X = \<lparr>c_taskId = ''X'', c_runs = 1, c_runId = 1, c_task = Some example_task\<rparr>"

definition example_newTask :: "claim \<Rightarrow> string + handler" where
  "example_newTask c = Inr \<lparr>h_taskId = c_taskId c, h_runId = c_runId c, h_cancel = None,
                             h_abort = None\<rparr>"

definition example_getDevice :: "claim \<Rightarrow> (string \<times> device) list \<Rightarrow> string
                                   \<Rightarrow> string + device" where
  "example_getDevice c held kind = Inr example_device"

definition example_claimWork :: "int \<Rightarrow> string + claim list" where
  "example_claimWork n = Inr [claim_A, claim_B]"

definition no_others :: "listener \<Rightarrow> listener" where
  "no_others s = s"

definition example_world :: world where
  "example_world = \<lparr>w_deviceCapacity = Inr 4, w_sweep = None,
                      w_exceedsDiskspaceThreshold = Inr False, w_claimWork = example_claimWork,
                      w_purgeCaches = None, w_getDevice = example_getDevice,
                      w_newTask = example_newTask, w_shouldExit = ExitNone,
                      w_others = no_others, w_waits = [], w_pausing = no_others\<rparr>"


text \<open>Scenario S2: the device probe throws.\<close>

definition probe_fails :: world where
  "probe_fails = example_world\<lparr>w_deviceCapacity := Inl ''no device manager''\<rparr>"

text \<open>Scenario S5: the tasks "X" and "Y" are running, the abort of "Y" throws, the queue
  has no work and the shutdown manager answers "immediate". During the first wait of the
  poll the task "X" retires, during the second the task "Y".\<close>

definition handler_Y :: handler where
  "handler_Y = \<lparr>h_taskId = ''Y'', h_runId = 0, h_cancel = None, h_abort = Some ''gone''\<rparr>"

definition state_Y :: running_state where
  "state_Y = \<lparr>startTime = 12, devices = [], taskId = ''Y'', runId = 0,
               handler = Some handler_Y\<rparr>"







text \<open>Scenario S4 with two running tasks: "Y" was added first, then "X". A message that
  names another reason, one for a task that is not running, and a running task "Z" whose
  \<^verbatim>\<open>handler.cancel\<close> throws, with the cancellation message for it.\<close>

definition worker_YX :: listener where
  "worker_YX = addRunningTask 12 example_state (addRunningTask 10 state_Y example_listener)"

definition example_deadline :: message where
  "example_deadline = \<lparr>m_runId = 1, m_taskId = ''X'',
                         m_runs = [None, Some ''deadline-exceeded'']\<rparr>"

definition cancel_Q :: message where
  "cancel_Q = \<lparr>m_runId = 0, m_taskId = ''Q'', m_runs = [Some ''canceled'']\<rparr>"

definition handler_Z :: handler where
  "handler_Z = \<lparr>h_taskId = ''Z'', h_runId = 0, h_cancel = Some ''cancel failed'',
                  h_abort = None\<rparr>"

definition state_Z :: running_state where
  "state_Z = \<lparr>startTime = 12, devices = [(''cpu'', example_device)], taskId = ''Z'', runId = 0,
               handler = Some handler_Z\<rparr>"

definition cancel_Z :: message where
  "cancel_Z = \<lparr>m_runId = 0, m_taskId = ''Z'', m_runs = [Some ''canceled'']\<rparr>"

definition worker_YZ :: listener where
  "worker_YZ = addRunningTask 12 state_Z (addRunningTask 10 state_Y example_listener)"

text \<open>A claim "D" whose payload asks for two devices, on a device manager that has no
  audio device left and names every other device after its kind; and a worker on which
  no task handler can be built.\<close>

definition device_task :: task where
  "device_task = \<lparr>created = 0,
                    capability_devices = Some [''loopbackVideo'', ''loopbackAudio'']\<rparr>"

definition claim_D :: claim where
  "claim_D = \<lparr>c_taskId = ''D'', c_runs = 0, c_runId = 0, c_task = Some device_task\<rparr>"











section \<open>Properties\<close>

lemma trace_emit [simp]: "trace (emit evs s) = trace s @ evs"
  by (simp add: emit_def)

lemma emit_fields [simp]:
  "capacity (emit evs s) = capacity s"
  "restrictCPU (emit evs s) = restrictCPU s"
  "runningTasks (emit evs s) = runningTasks s"
  "lastKnownCapacity (emit evs s) = lastKnownCapacity s"
  "totalRunTime (emit evs s) = totalRunTime s"
  "lastTaskEvent (emit evs s) = lastTaskEvent s"
  "paused (emit evs s) = paused s"
  by (simp_all add: emit_def)

text \<open>
  C1. \<^verbatim>\<open>availableCapacity\<close> returns
  \<open>min (max (configuredCapacity - |runningTasks|) 0) deviceCapacity\<close> and stores that value
  in \<open>lastKnownCapacity\<close>, whatever the configured capacity, the running set and the
  probe's answer are. When the probe throws, \<open>deviceCapacity\<close> is 0, the alert is the
  first record the method logs, and the method still returns a value (its result type has
  no exception).
\<close>

theorem availableCapacity_value:
  "fst (availableCapacity (Inr n) s) = min (max (capacity s - int (length (runningTasks s))) 0) n
   \<and> lastKnownCapacity (snd (availableCapacity (Inr n) s)) = fst (availableCapacity (Inr n) s)
   \<and> fst (availableCapacity (Inl e) s) = min (max (capacity s - int (length (runningTasks s))) 0) 0
   \<and> lastKnownCapacity (snd (availableCapacity (Inl e) s)) = fst (availableCapacity (Inl e) s)
   \<and> take (Suc (length (trace s))) (trace (snd (availableCapacity (Inl e) s))) =
       trace s @ [Log ''[alert-operator] error determining device capacity'' [FStr ''message'' e]]"
  by (simp add: availableCapacity_def Let_def)

subsection \<open>Traces and fields of the registry operations\<close>

lemma released_append [simp]: "released (xs @ ys) = released xs @ released ys"
  by (simp add: released_def)

lemma released_Nil [simp]: "released [] = []"
  by (simp add: released_def)

lemma released_Cons [simp]:
  "released (e # es) = (case e of DeviceRelease kind d \<Rightarrow> [(kind, d)] | _ \<Rightarrow> []) @ released es"
  by (simp add: released_def)

lemma released_releases [simp]: "released (map (\<lambda>(kind, d). DeviceRelease kind d) ds) = ds"
  by (induction ds) auto

lemma trace_cleanupRunningState [simp]:
  "trace (cleanupRunningState (Some st) s) = trace s @ map (\<lambda>(kind, d). DeviceRelease kind d) (devices st)"
  by (simp add: cleanupRunningState_def)

lemma cleanupRunningState_fields [simp]:
  "capacity (cleanupRunningState st s) = capacity s"
  "restrictCPU (cleanupRunningState st s) = restrictCPU s"
  "runningTasks (cleanupRunningState st s) = runningTasks s"
  "lastKnownCapacity (cleanupRunningState st s) = lastKnownCapacity s"
  "totalRunTime (cleanupRunningState st s) = totalRunTime s"
  "lastTaskEvent (cleanupRunningState st s) = lastTaskEvent s"
  "paused (cleanupRunningState st s) = paused s"
  by (simp_all add: cleanupRunningState_def split: option.splits)

lemma trace_recordCapacity:
  "trace (recordCapacity now s) =
     trace s @ [Measure ''capacity.duration.lastTaskEvent'' (now - lastTaskEvent s),
                Count ''capacity.idle'' (lastKnownCapacity s),
                Count ''capacity.runningTasks'' (int (length (runningTasks s))),
                Count ''capacity.total'' (lastKnownCapacity s + int (length (runningTasks s)))]"
  by (simp add: recordCapacity_def)

lemma recordCapacity_fields [simp]:
  "capacity (recordCapacity now s) = capacity s"
  "restrictCPU (recordCapacity now s) = restrictCPU s"
  "runningTasks (recordCapacity now s) = runningTasks s"
  "lastKnownCapacity (recordCapacity now s) = lastKnownCapacity s"
  "totalRunTime (recordCapacity now s) = totalRunTime s"
  "paused (recordCapacity now s) = paused s"
  by (simp_all add: recordCapacity_def)

lemma findIndex_Some:
  "findIndex p xs = Some i \<Longrightarrow> i < length xs \<and> p (xs ! i) \<and> (\<forall>j<i. \<not> p (xs ! j))"
proof (induction xs arbitrary: i)
  case Nil
  then show ?case by simp
next
  case (Cons x xs)
  show ?case
  proof (cases "p x")
    case True
    with Cons.prems show ?thesis by simp
  next
    case False
    with Cons.prems obtain k where k: "findIndex p xs = Some k" "i = Suc k"
      by auto
    from Cons.IH [OF k(1)] False k(2) show ?thesis
      by (auto simp: nth_Cons split: nat.splits)
  qed
qed

lemma findIndex_None: "findIndex p xs = None \<longleftrightarrow> (\<forall>x\<in>set xs. \<not> p x)"
  by (induction xs) auto

lemma length_splice1: "i < length xs \<Longrightarrow> length (splice1 i xs) + 1 = length xs"
  by (simp add: splice1_def)

subsection \<open>recordCapacity and the registry\<close>

text \<open>
  C4. \<^verbatim>\<open>addRunningTask\<close> calls \<^verbatim>\<open>recordCapacity\<close> and then appends to the registry;
  \<^verbatim>\<open>removeRunningTask\<close>, when it finds the entry, calls \<^verbatim>\<open>recordCapacity\<close> before it
  splices the entry away (only the releases of the leased devices come in between, and
  they do not touch the registry). \<^verbatim>\<open>recordCapacity\<close> does not change the registry, and
  the counters it emits are \<open>lastKnownCapacity\<close>, the registry's size and their sum as
  they are before the insertion or the deletion.
\<close>

theorem recordCapacity_precedes_mutation:
  "trace (addRunningTask now rs s) = trace (recordCapacity now s)
   \<and> runningTasks (addRunningTask now rs s) = runningTasks s @ [rs]
   \<and> trace (recordCapacity now s) =
       trace s @ [Measure ''capacity.duration.lastTaskEvent'' (now - lastTaskEvent s),
                  Count ''capacity.idle'' (lastKnownCapacity s),
                  Count ''capacity.runningTasks'' (int (length (runningTasks s))),
                  Count ''capacity.total'' (lastKnownCapacity s + int (length (runningTasks s)))]
   \<and> runningTasks (recordCapacity now s) = runningTasks s
   \<and> (\<forall>i. findIndex (\<lambda>t. taskId t = taskId rs \<and> runId t = runId rs) (runningTasks s) = Some i \<longrightarrow>
         trace (removeRunningTask now rs s) =
           trace (recordCapacity now s) @ map (\<lambda>(kind, d). DeviceRelease kind d) (devices rs)
         \<and> runningTasks (removeRunningTask now rs s) = splice1 i (runningTasks s)
         \<and> length (runningTasks (removeRunningTask now rs s)) + 1 = length (runningTasks s))"
proof -
  have add: "trace (addRunningTask now rs s) = trace (recordCapacity now s)
      \<and> runningTasks (addRunningTask now rs s) = runningTasks s @ [rs]"
    by (simp add: addRunningTask_def Let_def)
  have remove: "trace (removeRunningTask now rs s) =
           trace (recordCapacity now s) @ map (\<lambda>(kind, d). DeviceRelease kind d) (devices rs)
         \<and> runningTasks (removeRunningTask now rs s) = splice1 i (runningTasks s)
         \<and> length (runningTasks (removeRunningTask now rs s)) + 1 = length (runningTasks s)"
    if "findIndex (\<lambda>t. taskId t = taskId rs \<and> runId t = runId rs) (runningTasks s) = Some i" for i
    using that findIndex_Some [OF that] length_splice1 [of i "runningTasks s"]
    by (simp add: removeRunningTask_def Let_def)
  from add remove trace_recordCapacity [of now s] recordCapacity_fields(3) [of now s]
  show ?thesis by blast
qed

theorem recordCapacity_precedes_mutation_witness:
  "findIndex (\<lambda>t. taskId t = ''X'' \<and> runId t = 1) (runningTasks (addRunningTask 10 example_state example_listener)) = Some 0
   \<and> trace (removeRunningTask 25 example_state (addRunningTask 10 example_state example_listener)) =
       [Measure ''capacity.duration.lastTaskEvent'' 10,
        Count ''capacity.idle'' 2, Count ''capacity.runningTasks'' 0, Count ''capacity.total'' 2,
        Measure ''capacity.duration.lastTaskEvent'' 15,
        Count ''capacity.idle'' 2, Count ''capacity.runningTasks'' 1, Count ''capacity.total'' 3,
        DeviceRelease ''cpu'' example_device]
   \<and> runningTasks (removeRunningTask 25 example_state (addRunningTask 10 example_state example_listener)) = []"
  using recordCapacity_precedes_mutation [of 25 example_state "addRunningTask 10 example_state example_listener"]
    recordCapacity_precedes_mutation [of 10 example_state example_listener]
  by (simp add: example_state_def example_listener_def splice1_def recordCapacity_def
      addRunningTask_def Let_def emit_def)

text \<open>
  C9. When no registry entry has the \<^verbatim>\<open>taskId\<close> and \<^verbatim>\<open>runId\<close> of the state passed
  in, \<^verbatim>\<open>removeRunningTask\<close> logs the warning and releases the leases of that state, and
  changes nothing else of the listener: \<open>totalRunTime\<close>, \<open>lastKnownCapacity\<close> and the
  registry are as before.
\<close>

theorem removeRunningTask_not_found:
  assumes "findIndex (\<lambda>t. taskId t = taskId rs \<and> runId t = runId rs) (runningTasks s) = None"
  shows "removeRunningTask now rs s =
           s\<lparr>trace := trace s @
                Log ''[warning] running task removal error''
                  [FStr ''taskId'' (taskId rs), FInt ''runId'' (runId rs),
                   FStr ''err'' ''Could not find the task Id in the list of running tasks'']
                # map (\<lambda>(kind, d). DeviceRelease kind d) (devices rs)\<rparr>
         \<and> totalRunTime (removeRunningTask now rs s) = totalRunTime s
         \<and> lastKnownCapacity (removeRunningTask now rs s) = lastKnownCapacity s
         \<and> runningTasks (removeRunningTask now rs s) = runningTasks s"
  using assms by (simp add: removeRunningTask_def cleanupRunningState_def emit_def)

theorem removeRunningTask_not_found_witness:
  "findIndex (\<lambda>t. taskId t = ''X'' \<and> runId t = 1) (runningTasks example_listener) = None
   \<and> removeRunningTask 25 example_state example_listener =
       example_listener\<lparr>trace :=
         [Log ''[warning] running task removal error''
            [FStr ''taskId'' ''X'', FInt ''runId'' 1,
             FStr ''err'' ''Could not find the task Id in the list of running tasks''],
          DeviceRelease ''cpu'' example_device]\<rparr>"
proof -
  have h: "findIndex (\<lambda>t. taskId t = taskId example_state \<and> runId t = runId example_state)
             (runningTasks example_listener) = None"
    by (simp add: example_listener_def)
  from removeRunningTask_not_found [OF h, of 25] h show ?thesis
    by (simp add: example_state_def example_listener_def)
qed

subsection \<open>cancelTask\<close>

lemma find_state_found:
  "find_state tid rid xs = Inr (Some (state, h)) \<Longrightarrow>
     state \<in> set xs \<and> handler state = Some h \<and> h_taskId h = tid \<and> h_runId h = rid"
  by (induction xs) (auto split: option.splits if_splits)

lemma find_state_absent:
  "find_state tid rid xs = Inr None \<longleftrightarrow>
     (\<forall>state\<in>set xs. \<exists>h. handler state = Some h \<and> \<not> (h_taskId h = tid \<and> h_runId h = rid))"
  by (induction xs) (auto split: option.splits if_splits)

lemma find_state_first:
  assumes "\<forall>st\<in>set before. \<exists>h'. handler st = Some h' \<and> \<not> (h_taskId h' = tid \<and> h_runId h' = rid)"
    and "handler state = Some h" and "h_taskId h = tid" and "h_runId h = rid"
  shows "find_state tid rid (before @ state # after) = Inr (Some (state, h))"
  using assms by (induction before) auto

text \<open>
  C8, as the code has it. For a message whose run \<^verbatim>\<open>runs[runId]\<close> exists: when its
  \<^verbatim>\<open>reasonResolved\<close> is not "canceled", \<^verbatim>\<open>cancelTask\<close> returns and the listener is
  unchanged; when it is and no registry entry's handler has the message's \<^verbatim>\<open>taskId\<close>
  and \<^verbatim>\<open>runId\<close>, only the debug record is added; when the registry has an entry whose
  handler has them, then for the first such entry the listener logs and calls
  \<^verbatim>\<open>handler.cancel("canceled")\<close>, and when that call returns it releases each device of
  that entry, and changes nothing else.
\<close>

theorem cancelTask_cases:
  assumes "run_at (m_runs msg) (m_runId msg) = Some reason"
  shows "(reason \<noteq> Some ''canceled'' \<longrightarrow> cancelTask msg s = Returns s)
       \<and> (reason = Some ''canceled'' \<longrightarrow>
            (\<forall>state\<in>set (runningTasks s). \<exists>h. handler state = Some h
                \<and> \<not> (h_taskId h = m_taskId msg \<and> h_runId h = m_runId msg)) \<longrightarrow>
            cancelTask msg s = Returns (s\<lparr>trace := trace s @ [Debug ''task not found to cancel'']\<rparr>))
       \<and> (\<forall>before state after h. reason = Some ''canceled'' \<longrightarrow>
            runningTasks s = before @ state # after \<longrightarrow>
            (\<forall>st\<in>set before. \<exists>h'. handler st = Some h'
                \<and> \<not> (h_taskId h' = m_taskId msg \<and> h_runId h' = m_runId msg)) \<longrightarrow>
            handler state = Some h \<longrightarrow> h_taskId h = m_taskId msg \<longrightarrow> h_runId h = m_runId msg \<longrightarrow>
            h_cancel h = None \<longrightarrow>
            cancelTask msg s =
              Returns (s\<lparr>trace := trace s @
                         Log ''cancelling task'' [FStr ''taskId'' (m_taskId msg)]
                         # HandlerCancel h ''canceled''
                         # map (\<lambda>(kind, d). DeviceRelease kind d) (devices state)\<rparr>))"
proof -
  have absent: "cancelTask msg s = Returns (s\<lparr>trace := trace s @ [Debug ''task not found to cancel'']\<rparr>)"
    if "reason = Some ''canceled''"
      and "\<forall>state\<in>set (runningTasks s). \<exists>h. handler state = Some h
             \<and> \<not> (h_taskId h = m_taskId msg \<and> h_runId h = m_runId msg)"
  proof -
    from that(2) have "find_state (m_taskId msg) (m_runId msg) (runningTasks s) = Inr None"
      by (simp only: find_state_absent)
    with assms that(1) show ?thesis
      by (simp add: cancelTask_def emit_def)
  qed
  have found: "cancelTask msg s =
              Returns (s\<lparr>trace := trace s @
                         Log ''cancelling task'' [FStr ''taskId'' (m_taskId msg)]
                         # HandlerCancel h ''canceled''
                         # map (\<lambda>(kind, d). DeviceRelease kind d) (devices state)\<rparr>)"
    if "reason = Some ''canceled''" and "runningTasks s = before @ state # after"
      and "\<forall>st\<in>set before. \<exists>h'. handler st = Some h'
             \<and> \<not> (h_taskId h' = m_taskId msg \<and> h_runId h' = m_runId msg)"
      and "handler state = Some h" and "h_taskId h = m_taskId msg" and "h_runId h = m_runId msg"
      and "h_cancel h = None"
    for before state after h
  proof -
    have "find_state (m_taskId msg) (m_runId msg) (runningTasks s) = Inr (Some (state, h))"
      unfolding that(2) by (rule find_state_first [OF that(3) that(4) that(5) that(6)])
    with assms that(1) that(7) show ?thesis
      by (simp add: cancelTask_def Let_def emit_def cleanupRunningState_def)
  qed
  have other: "reason \<noteq> Some ''canceled'' \<longrightarrow> cancelTask msg s = Returns s"
    using assms by (simp add: cancelTask_def)
  from absent found other show ?thesis by blast
qed

theorem cancelTask_cases_witness:
  "run_at (m_runs example_cancel) (m_runId example_cancel) = Some (Some ''canceled'')
   \<and> runningTasks worker_YX = [state_Y] @ example_state # []
   \<and> cancelTask example_cancel worker_YX =
       Returns (emit [Log ''cancelling task'' [FStr ''taskId'' ''X''],
                      HandlerCancel example_handler ''canceled'',
                      DeviceRelease ''cpu'' example_device] worker_YX)
   \<and> run_at (m_runs example_deadline) (m_runId example_deadline) = Some (Some ''deadline-exceeded'')
   \<and> cancelTask example_deadline worker_YX = Returns worker_YX
   \<and> run_at (m_runs cancel_Q) (m_runId cancel_Q) = Some (Some ''canceled'')
   \<and> cancelTask cancel_Q worker_YX = Returns (emit [Debug ''task not found to cancel''] worker_YX)"
proof -
  have r1: "run_at (m_runs example_cancel) (m_runId example_cancel) = Some (Some ''canceled'')"
    and r2: "run_at (m_runs example_deadline) (m_runId example_deadline) =
               Some (Some ''deadline-exceeded'')"
    and r3: "run_at (m_runs cancel_Q) (m_runId cancel_Q) = Some (Some ''canceled'')"
    by (simp_all add: example_cancel_def example_deadline_def cancel_Q_def run_at_def)
  have reg: "runningTasks worker_YX = [state_Y] @ example_state # []"
    by (simp add: worker_YX_def addRunningTask_def Let_def example_listener_def)
  have found: "cancelTask example_cancel worker_YX =
      Returns (worker_YX\<lparr>trace := trace worker_YX @
                 Log ''cancelling task'' [FStr ''taskId'' (m_taskId example_cancel)]
                 # HandlerCancel example_handler ''canceled''
                 # map (\<lambda>(kind, d). DeviceRelease kind d) (devices example_state)\<rparr>)"
    by (rule cancelTask_cases [OF r1, of worker_YX, THEN conjunct2, THEN conjunct2,
          rule_format, OF refl reg])
       (simp_all add: state_Y_def handler_Y_def example_state_def example_handler_def
          example_cancel_def)
  have other: "cancelTask example_deadline worker_YX = Returns worker_YX"
    by (rule cancelTask_cases [OF r2, of worker_YX, THEN conjunct1, rule_format]) simp
  have absent: "cancelTask cancel_Q worker_YX =
      Returns (worker_YX\<lparr>trace := trace worker_YX @ [Debug ''task not found to cancel'']\<rparr>)"
    by (rule cancelTask_cases [OF r3, of worker_YX, THEN conjunct2, THEN conjunct1,
          rule_format, OF refl])
       (auto simp add: reg state_Y_def handler_Y_def example_state_def example_handler_def
          cancel_Q_def)
  from r1 r2 r3 reg found other absent show ?thesis
    by (simp add: emit_def example_cancel_def example_state_def)
qed

text \<open>Scenario S4 with a handler whose \<^verbatim>\<open>cancel\<close> throws: the tasks "Y" and "Z" are
  running, "Z" holds a CPU device, and the cancellation message for "Z" arrives. The
  lookup finds "Z" and \<^verbatim>\<open>handler.cancel\<close> is called; its exception leaves
  \<^verbatim>\<open>cancelTask\<close>, and no device has been released.\<close>

theorem cancelTask_releases_counterexample:
  "cancelTask cancel_Z worker_YZ =
     Throws ''cancel failed''
       (emit [Log ''cancelling task'' [FStr ''taskId'' ''Z''],
              HandlerCancel handler_Z ''canceled''] worker_YZ)
   \<and> released (trace (outcome_listener (cancelTask cancel_Z worker_YZ))) = []"
  by (simp add: cancelTask_def cancel_Z_def worker_YZ_def run_at_def addRunningTask_def
      recordCapacity_def Let_def emit_def example_listener_def state_Y_def handler_Y_def
      state_Z_def handler_Z_def outcome_listener_def)

text \<open>
  C10. \<^verbatim>\<open>cancelTask\<close> leaves the registry as it is, for every message and whether it
  returns or throws: the same entries, hence the same size. The device releases it adds
  are none, or those of the state the lookup found.
\<close>

theorem cancelTask_keeps_registry:
  "runningTasks (outcome_listener (cancelTask msg s)) = runningTasks s
   \<and> length (runningTasks (outcome_listener (cancelTask msg s))) = length (runningTasks s)
   \<and> (released (trace (outcome_listener (cancelTask msg s))) = released (trace s)
      \<or> (\<exists>state h. find_state (m_taskId msg) (m_runId msg) (runningTasks s) = Inr (Some (state, h))
            \<and> released (trace (outcome_listener (cancelTask msg s))) =
                released (trace s) @ devices state))"
  by (auto simp add: cancelTask_def Let_def outcome_listener_def
      split: option.splits sum.splits)

theorem cancelTask_keeps_registry_witness:
  "runningTasks (outcome_listener (cancelTask example_cancel
       (addRunningTask 10 example_state example_listener))) = [example_state]
   \<and> released (trace (outcome_listener (cancelTask example_cancel
       (addRunningTask 10 example_state example_listener)))) = [(''cpu'', example_device)]"
  using cancelTask_keeps_registry [of example_cancel "addRunningTask 10 example_state example_listener"]
  by (simp add: cancelTask_def example_cancel_def run_at_def addRunningTask_def Let_def
      example_listener_def example_state_def example_handler_def outcome_listener_def
      recordCapacity_def emit_def cleanupRunningState_def)

subsection \<open>runTask\<close>

lemma lifecycle_append [simp]: "lifecycle (xs @ ys) = lifecycle xs @ lifecycle ys"
  by (simp add: lifecycle_def)

lemma lifecycle_Nil [simp]: "lifecycle [] = []"
  by (simp add: lifecycle_def)

lemma lifecycle_Cons [simp]:
  "lifecycle (e # es) = (case e of LogEvent l \<Rightarrow> [l] | _ \<Rightarrow> []) @ lifecycle es"
  by (simp add: lifecycle_def)

lemma lifecycle_releases [simp]: "lifecycle (map (\<lambda>(kind, d). DeviceRelease kind d) ds) = []"
  by (induction ds) auto

lemma counted_append [simp]: "counted name (xs @ ys) = counted name xs + counted name ys"
  by (simp add: counted_def)

lemma counted_Nil [simp]: "counted name [] = 0"
  by (simp add: counted_def)

lemma counted_Cons [simp]:
  "counted name (e # es) =
     (case e of Count c n \<Rightarrow> if c = name then n else 0 | _ \<Rightarrow> 0) + counted name es"
  by (simp add: counted_def)

lemma counted_releases [simp]: "counted name (map (\<lambda>(kind, d). DeviceRelease kind d) ds) = 0"
  by (induction ds) auto

lemma sweeps_append [simp]: "sweeps (xs @ ys) = sweeps xs @ sweeps ys"
  by (simp add: sweeps_def)

lemma sweeps_Nil [simp]: "sweeps [] = []"
  by (simp add: sweeps_def)

lemma sweeps_Cons [simp]:
  "sweeps (e # es) = (case e of GcSweep full \<Rightarrow> [full] | _ \<Rightarrow> []) @ sweeps es"
  by (simp add: sweeps_def)

lemma sweeps_releases [simp]: "sweeps (map (\<lambda>(kind, d). DeviceRelease kind d) ds) = []"
  by (induction ds) auto

text \<open>What \<^verbatim>\<open>removeRunningTask\<close> and the \<^verbatim>\<open>catch\<close> block add to the trace.\<close>

lemma trace_removeRunningTask:
  "\<exists>evs. trace (removeRunningTask now rs s) = trace s @ evs
         \<and> lifecycle evs = [] \<and> sweeps evs = [] \<and> released evs = devices rs
         \<and> counted ''task.error'' evs = 0"
  by (cases "findIndex (\<lambda>t. taskId t = taskId rs \<and> runId t = runId rs) (runningTasks s)")
     (simp_all add: removeRunningTask_def Let_def trace_recordCapacity)

lemma trace_runTask_catch:
  "\<exists>evs. trace (runTask_catch now claim rs e s) = trace s @ evs
         \<and> lifecycle evs = [] \<and> sweeps evs = [] \<and> released evs = devices rs
         \<and> counted ''task.error'' evs = 0"
proof -
  obtain evs where evs: "trace (removeRunningTask now rs s) = trace s @ evs"
      "lifecycle evs = []" "sweeps evs = []" "released evs = devices rs"
      "counted ''task.error'' evs = 0"
    using trace_removeRunningTask by blast
  then show ?thesis
    by (cases "c_task claim") (simp_all add: runTask_catch_def Let_def)
qed

text \<open>The stretches of \<^verbatim>\<open>runTask\<close>, from the inside out.\<close>

lemma stretch_from_after:
  assumes "stretch_from s1 held task p"
    and "trace s1 = trace s @ pre" and "lifecycle pre = []" and "sweeps pre = []"
    and "released pre = []" and "runningTasks s1 = runningTasks s"
  shows "stretch_from s held task p"
proof (cases p)
  case (Finished s2)
  with assms(1) obtain evs where "trace s2 = trace s1 @ evs" "lifecycle evs = []"
      "sweeps evs = []" "released evs = held"
    by (auto simp add: stretch_from_def)
  with assms(2-5) have "trace s2 = trace s @ (pre @ evs) \<and> lifecycle (pre @ evs) = []
      \<and> sweeps (pre @ evs) = [] \<and> released (pre @ evs) = held"
    by simp
  with Finished show ?thesis
    unfolding stretch_from_def by (simp only: progress.case) blast
next
  case (AwaitDevice rs task' kind kinds s2)
  with assms(1) obtain evs where "devices rs = held" "task' = task"
      "runningTasks s2 = runningTasks s1" "trace s2 = trace s1 @ evs" "lifecycle evs = []"
      "sweeps evs = []" "released evs = []"
    by (auto simp add: stretch_from_def)
  with assms(2-6) have "devices rs = held \<and> task' = task \<and> runningTasks s2 = runningTasks s
      \<and> trace s2 = trace s @ (pre @ evs) \<and> lifecycle (pre @ evs) = []
      \<and> sweeps (pre @ evs) = [] \<and> released (pre @ evs) = []"
    by simp
  with AwaitDevice show ?thesis
    unfolding stretch_from_def by (simp only: progress.case) blast
next
  case (Suspended rs h s2)
  with assms(1) obtain evs where "devices rs = held" "handler rs = Some h"
      "runningTasks s2 = runningTasks s1 @ [rs]"
      "trace s2 = trace s1 @ evs @
         [LogEvent (TaskQueue h (created task)), LogEvent (TaskStart h), HandlerStart h]"
      "lifecycle evs = []" "sweeps evs = []" "released evs = []"
    by (auto simp add: stretch_from_def)
  with assms(2-6) have "devices rs = held \<and> handler rs = Some h
      \<and> runningTasks s2 = runningTasks s @ [rs]
      \<and> trace s2 = trace s @ (pre @ evs) @
           [LogEvent (TaskQueue h (created task)), LogEvent (TaskStart h), HandlerStart h]
      \<and> lifecycle (pre @ evs) = [] \<and> sweeps (pre @ evs) = [] \<and> released (pre @ evs) = []"
    by simp
  with Suspended show ?thesis
    unfolding stretch_from_def by (simp only: progress.case) blast
qed

lemma stretch_runTask_throw:
  "stretch_from s (devices rs) task (runTask_throw now claim rs e s)"
proof -
  obtain evs where "trace (runTask_catch now claim rs e s) = trace s @ evs"
      "lifecycle evs = []" "sweeps evs = []" "released evs = devices rs"
    using trace_runTask_catch by blast
  then have "trace (emit [Count ''task.error'' 1] (runTask_catch now claim rs e s)) =
        trace s @ (evs @ [Count ''task.error'' 1])
      \<and> lifecycle (evs @ [Count ''task.error'' 1]) = []
      \<and> sweeps (evs @ [Count ''task.error'' 1]) = []
      \<and> released (evs @ [Count ''task.error'' 1]) = devices rs"
    by simp
  then show ?thesis
    unfolding stretch_from_def runTask_throw_def by (simp only: progress.case) blast
qed

lemma stretch_runTask_admit:
  "stretch_from s (devices rs) task (runTask_admit w now claim task rs s)"
proof (cases "w_newTask w claim")
  case (Inl e)
  then show ?thesis
    by (simp add: runTask_admit_def stretch_runTask_throw)
next
  case (Inr h)
  have "trace (addRunningTask now (rs\<lparr>handler := Some h\<rparr>) s) = trace s @
      [Measure ''capacity.duration.lastTaskEvent'' (now - lastTaskEvent s),
       Count ''capacity.idle'' (lastKnownCapacity s),
       Count ''capacity.runningTasks'' (int (length (runningTasks s))),
       Count ''capacity.total'' (lastKnownCapacity s + int (length (runningTasks s)))]"
    by (simp add: addRunningTask_def Let_def trace_recordCapacity)
  then have "\<exists>evs. trace (emit [LogEvent (TaskQueue h (created task)), LogEvent (TaskStart h),
                                HandlerStart h]
                         (addRunningTask now (rs\<lparr>handler := Some h\<rparr>) s)) =
               trace s @ evs @
                 [LogEvent (TaskQueue h (created task)), LogEvent (TaskStart h), HandlerStart h]
             \<and> lifecycle evs = [] \<and> sweeps evs = [] \<and> released evs = []"
    by (intro exI [where x = "[Measure ''capacity.duration.lastTaskEvent'' (now - lastTaskEvent s),
       Count ''capacity.idle'' (lastKnownCapacity s),
       Count ''capacity.runningTasks'' (int (length (runningTasks s))),
       Count ''capacity.total'' (lastKnownCapacity s + int (length (runningTasks s)))]"]) simp
  with Inr show ?thesis
    by (simp add: runTask_admit_def stretch_from_def Let_def addRunningTask_def)
qed

lemma stretch_runTask_devices:
  "stretch_from s (devices rs) task (runTask_devices w now claim task rs kinds s)"
proof (cases kinds)
  case Nil
  then show ?thesis
    by (simp add: runTask_devices_def stretch_runTask_admit)
next
  case (Cons kind rest)
  have "\<exists>evs. trace (emit [GetDevice kind] s) = trace s @ evs
      \<and> lifecycle evs = [] \<and> sweeps evs = [] \<and> released evs = []"
    by (intro exI [where x = "[GetDevice kind]"]) simp
  with Cons show ?thesis
    by (simp add: runTask_devices_def stretch_from_def)
qed

lemma stretch_runTask_payload:
  "stretch_from s (devices rs) task (runTask_payload w now claim task rs s)"
proof (cases "capability_devices task")
  case None
  then show ?thesis
    by (simp add: runTask_payload_def stretch_runTask_admit)
next
  case (Some kinds)
  have "stretch_from (emit [Debug ''Aquiring task payload specific devices''] s) (devices rs) task
          (runTask_devices w now claim task rs kinds
             (emit [Debug ''Aquiring task payload specific devices''] s))"
    by (rule stretch_runTask_devices)
  then have "stretch_from s (devices rs) task
          (runTask_devices w now claim task rs kinds
             (emit [Debug ''Aquiring task payload specific devices''] s))"
    by (rule stretch_from_after
          [where pre = "[Debug ''Aquiring task payload specific devices'']"]) simp_all
  with Some show ?thesis
    by (simp add: runTask_payload_def)
qed

text \<open>The devices that \<^verbatim>\<open>runningState\<close> holds at the end of a stretch: after the first,
  the CPU device when the worker restricts CPUs and its lease succeeded; after a later
  one, the devices held before and the device that arrived, under its kind.\<close>

lemma stretch_runTask_leased:
  "stretch_from s
     (case w_getDevice w claim (devices rs) kind of
        Inl e \<Rightarrow> devices rs
      | Inr d \<Rightarrow> AList.update kind d (devices rs))
     task (runTask_leased w now claim task rs kind kinds s)"
proof (cases "w_getDevice w claim (devices rs) kind")
  case (Inl e)
  then show ?thesis
    by (simp add: runTask_leased_def stretch_runTask_throw)
next
  case (Inr d)
  have "stretch_from s (devices (rs\<lparr>devices := AList.update kind d (devices rs)\<rparr>)) task
          (runTask_devices w now claim task (rs\<lparr>devices := AList.update kind d (devices rs)\<rparr>)
             kinds s)"
    by (rule stretch_runTask_devices)
  with Inr show ?thesis
    by (simp add: runTask_leased_def)
qed

lemma stretch_runTask_begin:
  assumes "c_task claim = Some task"
  shows "stretch_from s
     (if restrictCPU s
      then (case w_getDevice w claim [] ''cpu'' of Inl e \<Rightarrow> [] | Inr d \<Rightarrow> [(''cpu'', d)])
      else [])
     task (runTask_begin w now claim s)"
proof -
  let ?rs = "\<lparr>startTime = now, devices = [], taskId = c_taskId claim, runId = c_runId claim,
               handler = None\<rparr>"
  let ?log = "Log ''run task'' [FStr ''taskId'' (c_taskId claim), FInt ''runId'' (c_runId claim)]"
  let ?held = "if restrictCPU s
      then (case w_getDevice w claim [] ''cpu'' of Inl e \<Rightarrow> [] | Inr d \<Rightarrow> [(''cpu'', d)])
      else []"
  have body: "stretch_from s ?held task
      (if restrictCPU s
       then (case w_getDevice w claim [] ''cpu'' of
               Inl e \<Rightarrow> runTask_throw now claim ?rs e (emit [GetDevice ''cpu''] s2)
             | Inr d \<Rightarrow>
                 runTask_payload w now claim task (?rs\<lparr>devices := [(''cpu'', d)]\<rparr>)
                   (emit [GetDevice ''cpu''] s2))
       else runTask_payload w now claim task ?rs s2)"
    if s2: "trace s2 = trace s @ pre" "lifecycle pre = []" "sweeps pre = []"
      "released pre = []" "runningTasks s2 = runningTasks s"
    for s2 pre
  proof -
    let ?s3 = "emit [GetDevice ''cpu''] s2"
    have s3: "trace ?s3 = trace s @ (pre @ [GetDevice ''cpu''])"
        "lifecycle (pre @ [GetDevice ''cpu'']) = []" "sweeps (pre @ [GetDevice ''cpu'']) = []"
        "released (pre @ [GetDevice ''cpu'']) = []" "runningTasks ?s3 = runningTasks s"
      using s2 by simp_all
    show ?thesis
    proof (cases "restrictCPU s")
      case False
      have "stretch_from s2 (devices ?rs) task (runTask_payload w now claim task ?rs s2)"
        by (rule stretch_runTask_payload)
      then have "stretch_from s (devices ?rs) task (runTask_payload w now claim task ?rs s2)"
        by (rule stretch_from_after [OF _ s2])
      with False show ?thesis by simp
    next
      case True
      show ?thesis
      proof (cases "w_getDevice w claim [] ''cpu''")
        case (Inl e)
        have "stretch_from ?s3 (devices ?rs) task (runTask_throw now claim ?rs e ?s3)"
          by (rule stretch_runTask_throw)
        then have "stretch_from s (devices ?rs) task (runTask_throw now claim ?rs e ?s3)"
          by (rule stretch_from_after [OF _ s3])
        with True Inl show ?thesis by simp
      next
        case (Inr d)
        let ?rs1 = "?rs\<lparr>devices := [(''cpu'', d)]\<rparr>"
        have "stretch_from ?s3 (devices ?rs1) task (runTask_payload w now claim task ?rs1 ?s3)"
          by (rule stretch_runTask_payload)
        then have "stretch_from s (devices ?rs1) task (runTask_payload w now claim task ?rs1 ?s3)"
          by (rule stretch_from_after [OF _ s3])
        with True Inr show ?thesis by simp
      qed
    qed
  qed
  show ?thesis
  proof (cases "c_runs claim = 0")
    case True
    have "stretch_from s ?held task
      (if restrictCPU s
       then (case w_getDevice w claim [] ''cpu'' of
               Inl e \<Rightarrow> runTask_throw now claim ?rs e
                 (emit [GetDevice ''cpu'']
                    (emit [Measure ''timeToFirstClaim'' (now - created task)] (emit [?log] s)))
             | Inr d \<Rightarrow>
                 runTask_payload w now claim task (?rs\<lparr>devices := [(''cpu'', d)]\<rparr>)
                   (emit [GetDevice ''cpu'']
                      (emit [Measure ''timeToFirstClaim'' (now - created task)] (emit [?log] s))))
       else runTask_payload w now claim task ?rs
              (emit [Measure ''timeToFirstClaim'' (now - created task)] (emit [?log] s)))"
      by (rule body [where pre = "[?log, Measure ''timeToFirstClaim'' (now - created task)]"])
         simp_all
    with True assms show ?thesis
      by (auto simp add: runTask_begin_def Let_def split: if_split_asm sum.splits)
  next
    case False
    have "stretch_from s ?held task
      (if restrictCPU s
       then (case w_getDevice w claim [] ''cpu'' of
               Inl e \<Rightarrow> runTask_throw now claim ?rs e (emit [GetDevice ''cpu''] (emit [?log] s))
             | Inr d \<Rightarrow>
                 runTask_payload w now claim task (?rs\<lparr>devices := [(''cpu'', d)]\<rparr>)
                   (emit [GetDevice ''cpu''] (emit [?log] s)))
       else runTask_payload w now claim task ?rs (emit [?log] s))"
      by (rule body [where pre = "[?log]"]) simp_all
    with False assms show ?thesis
      by (auto simp add: runTask_begin_def Let_def split: if_split_asm sum.splits)
  qed
qed

lemma stretch_runTask_begin_no_task:
  assumes "c_task claim = None"
  shows "stretch_from s [] task (runTask_begin w now claim s)"
proof -
  let ?rs = "\<lparr>startTime = now, devices = [], taskId = c_taskId claim, runId = c_runId claim,
               handler = None\<rparr>"
  let ?s1 = "emit [Log ''run task'' [FStr ''taskId'' (c_taskId claim),
                                      FInt ''runId'' (c_runId claim)]] s"
  have "stretch_from ?s1 (devices ?rs) task (runTask_throw now claim ?rs ''TypeError'' ?s1)"
    by (rule stretch_runTask_throw)
  then have "stretch_from s (devices ?rs) task (runTask_throw now claim ?rs ''TypeError'' ?s1)"
    by (rule stretch_from_after
          [where pre = "[Log ''run task'' [FStr ''taskId'' (c_taskId claim),
                                            FInt ''runId'' (c_runId claim)]]"]) simp_all
  with assms show ?thesis
    by (simp add: runTask_begin_def Let_def)
qed

lemmas example_defs =
  example_task_def claim_A_def claim_B_def claim_X_def example_newTask_def example_getDevice_def
  example_claimWork_def example_world_def no_others_def
  example_cancel_def example_listener_def example_state_def example_handler_def
  outcome_listener_def

lemmas runTask_defs =
  runTask_def runTask_begin_def runTask_payload_def runTask_devices_def runTask_leased_def
  runTask_admit_def runTask_throw_def runTask_resume_def runTask_catch_def
  addRunningTask_def removeRunningTask_def recordCapacity_def cleanupRunningState_def
  emit_def splice1_def Let_def

lemma trace_runTask_resume:
  "\<exists>evs. trace (runTask_resume now claim rs h result s) = trace s @ LogEvent (TaskFinish h) # evs
         \<and> lifecycle evs = [] \<and> released evs = devices rs \<and> counted ''task.error'' evs = 1"
proof (cases result)
  case Resolved
  obtain evs where "trace (removeRunningTask now rs (emit [LogEvent (TaskFinish h)] s)) =
      trace (emit [LogEvent (TaskFinish h)] s) @ evs"
      "lifecycle evs = []" "released evs = devices rs" "counted ''task.error'' evs = 0"
    using trace_removeRunningTask by blast
  with Resolved show ?thesis
    by (simp add: runTask_resume_def Let_def)
next
  case (Rejected e)
  obtain evs where "trace (runTask_catch now claim rs e (emit [LogEvent (TaskFinish h)] s)) =
      trace (emit [LogEvent (TaskFinish h)] s) @ evs"
      "lifecycle evs = []" "released evs = devices rs" "counted ''task.error'' evs = 0"
    using trace_runTask_catch by blast
  with Rejected show ?thesis
    by (simp add: runTask_resume_def Let_def)
qed

text \<open>
  C3. Of the stretches of a call of \<^verbatim>\<open>runTask\<close>, the first one and each one that starts
  when a device lease settles, a stretch that ends the call or ends waiting for a device
  emits no lifecycle event at all. A stretch that reaches the wait for
  \<^verbatim>\<open>handler.start()\<close> has, at that moment, ended its trace with \<^verbatim>\<open>taskQueue\<close> (stamped
  with the task's creation time), \<^verbatim>\<open>taskStart\<close> and the call of \<^verbatim>\<open>start()\<close>, in this
  order and with no lifecycle event before them; and whenever \<^verbatim>\<open>start()\<close> settles,
  resolved or rejected and whatever the listener is then, the first thing the call does
  is emit \<^verbatim>\<open>taskFinish\<close>, once.
\<close>

theorem taskFinish_follows_taskStart:
  "(case runTask_begin w now claim s of
      Finished s1 \<Rightarrow> \<exists>evs. trace s1 = trace s @ evs \<and> lifecycle evs = []
    | AwaitDevice rs' task' kind' kinds' s1 \<Rightarrow>
        c_task claim = Some task' \<and> (\<exists>evs. trace s1 = trace s @ evs \<and> lifecycle evs = [])
    | Suspended rs' h' s1 \<Rightarrow>
        (\<exists>evs task. c_task claim = Some task
            \<and> trace s1 = trace s @ evs @
                [LogEvent (TaskQueue h' (created task)), LogEvent (TaskStart h'), HandlerStart h']
            \<and> lifecycle evs = []))
   \<and> (case runTask_leased w now claim task rs kind kinds s of
      Finished s1 \<Rightarrow> \<exists>evs. trace s1 = trace s @ evs \<and> lifecycle evs = []
    | AwaitDevice rs' task' kind' kinds' s1 \<Rightarrow>
        task' = task \<and> (\<exists>evs. trace s1 = trace s @ evs \<and> lifecycle evs = [])
    | Suspended rs' h' s1 \<Rightarrow>
        (\<exists>evs. trace s1 = trace s @ evs @
                [LogEvent (TaskQueue h' (created task)), LogEvent (TaskStart h'), HandlerStart h']
            \<and> lifecycle evs = []))
   \<and> (\<forall>now' result s2. \<exists>evs.
          trace (runTask_resume now' claim rs h result s2) =
            trace s2 @ LogEvent (TaskFinish h) # evs
          \<and> lifecycle evs = [])"
proof -
  have first: "case runTask_begin w now claim s of
      Finished s1 \<Rightarrow> \<exists>evs. trace s1 = trace s @ evs \<and> lifecycle evs = []
    | AwaitDevice rs' task' kind' kinds' s1 \<Rightarrow>
        c_task claim = Some task' \<and> (\<exists>evs. trace s1 = trace s @ evs \<and> lifecycle evs = [])
    | Suspended rs' h' s1 \<Rightarrow>
        (\<exists>evs task. c_task claim = Some task
            \<and> trace s1 = trace s @ evs @
                [LogEvent (TaskQueue h' (created task)), LogEvent (TaskStart h'), HandlerStart h']
            \<and> lifecycle evs = [])"
  proof (cases "c_task claim")
    case None
    have "runTask_begin w now claim s =
        runTask_throw now claim
          \<lparr>startTime = now, devices = [], taskId = c_taskId claim, runId = c_runId claim,
             handler = None\<rparr> ''TypeError''
          (emit [Log ''run task'' [FStr ''taskId'' (c_taskId claim),
                                    FInt ''runId'' (c_runId claim)]] s)"
      using None by (simp add: runTask_begin_def Let_def)
    moreover from stretch_runTask_begin_no_task [OF None, where s = s and task = undefined
        and w = w and now = now]
    have "stretch_from s [] undefined (runTask_begin w now claim s)" .
    ultimately show ?thesis
      by (auto simp add: runTask_throw_def stretch_from_def)
  next
    case (Some task)
    from stretch_runTask_begin [OF Some, where s = s and w = w and now = now] Some
    show ?thesis
      by (cases "runTask_begin w now claim s") (auto simp add: stretch_from_def)
  qed
  have later: "case runTask_leased w now claim task rs kind kinds s of
      Finished s1 \<Rightarrow> \<exists>evs. trace s1 = trace s @ evs \<and> lifecycle evs = []
    | AwaitDevice rs' task' kind' kinds' s1 \<Rightarrow>
        task' = task \<and> (\<exists>evs. trace s1 = trace s @ evs \<and> lifecycle evs = [])
    | Suspended rs' h' s1 \<Rightarrow>
        (\<exists>evs. trace s1 = trace s @ evs @
                [LogEvent (TaskQueue h' (created task)), LogEvent (TaskStart h'), HandlerStart h']
            \<and> lifecycle evs = [])"
    using stretch_runTask_leased [where s = s and w = w and claim = claim and rs = rs
        and kind = kind and task = task and now = now and kinds = kinds]
    by (cases "runTask_leased w now claim task rs kind kinds s") (auto simp add: stretch_from_def)
  have last: "\<forall>now' result s2. \<exists>evs.
      trace (runTask_resume now' claim rs h result s2) = trace s2 @ LogEvent (TaskFinish h) # evs
      \<and> lifecycle evs = []"
    using trace_runTask_resume by blast
  from first later last show ?thesis by blast
qed

theorem taskFinish_follows_taskStart_witness:
  "lifecycle (trace (runTask example_world 10 claim_A no_others 20 Resolved example_listener)) =
     [TaskQueue \<lparr>h_taskId = ''A'', h_runId = 0, h_cancel = None, h_abort = None\<rparr> 0,
      TaskStart \<lparr>h_taskId = ''A'', h_runId = 0, h_cancel = None, h_abort = None\<rparr>,
      TaskFinish \<lparr>h_taskId = ''A'', h_runId = 0, h_cancel = None, h_abort = None\<rparr>]
   \<and> lifecycle (trace (runTask example_world 10 claim_A no_others 20 (Rejected ''failed'')
        example_listener)) =
     [TaskQueue \<lparr>h_taskId = ''A'', h_runId = 0, h_cancel = None, h_abort = None\<rparr> 0,
      TaskStart \<lparr>h_taskId = ''A'', h_runId = 0, h_cancel = None, h_abort = None\<rparr>,
      TaskFinish \<lparr>h_taskId = ''A'', h_runId = 0, h_cancel = None, h_abort = None\<rparr>]
   \<and> lifecycle (trace (runTask example_world 10 claim_D no_others 20 Resolved example_listener)) =
     [TaskQueue \<lparr>h_taskId = ''D'', h_runId = 0, h_cancel = None, h_abort = None\<rparr> 0,
      TaskStart \<lparr>h_taskId = ''D'', h_runId = 0, h_cancel = None, h_abort = None\<rparr>,
      TaskFinish \<lparr>h_taskId = ''D'', h_runId = 0, h_cancel = None, h_abort = None\<rparr>]"
  using taskFinish_follows_taskStart [where w = example_world and now = 10 and claim = claim_A
      and s = example_listener]
  by (simp add: example_defs runTask_defs claim_D_def device_task_def)

text \<open>
  C5. Scenario S1: the claims "A" and "B" run one after the other on an idle worker, each
  \<^verbatim>\<open>start()\<close> resolves and no stage throws. The registry is empty again and the run time
  is counted, but \<^verbatim>\<open>task.error\<close> stands at 2: the statement that counts it comes after
  the \<^verbatim>\<open>try\<close>/\<^verbatim>\<open>catch\<close>, on the path of every call.
\<close>

theorem task_error_counted_on_success:
  "counted ''task.error''
     (trace (runTask example_world 12 claim_B no_others 30 Resolved
        (runTask example_world 10 claim_A no_others 20 Resolved example_listener))) = 2
   \<and> runningTasks (runTask example_world 12 claim_B no_others 30 Resolved
        (runTask example_world 10 claim_A no_others 20 Resolved example_listener)) = []
   \<and> totalRunTime (runTask example_world 12 claim_B no_others 30 Resolved
        (runTask example_world 10 claim_A no_others 20 Resolved example_listener)) = 28"
  by (simp add: example_defs runTask_defs)

subsection \<open>Releasing the leased devices\<close>






subsection \<open>getTasks and the garbage collector\<close>

lemma sweeps_runTask_begin:
  "sweeps (trace (progress_listener (runTask_begin w now claim s))) = sweeps (trace s)"
proof -
  have "\<exists>held task. stretch_from s held task (runTask_begin w now claim s)"
  proof (cases "c_task claim")
    case None
    from stretch_runTask_begin_no_task [OF None, where s = s and w = w and now = now]
    show ?thesis by blast
  next
    case (Some task)
    from stretch_runTask_begin [OF Some, where s = s and w = w and now = now]
    show ?thesis by blast
  qed
  then show ?thesis
    by (cases "runTask_begin w now claim s")
       (auto simp add: stretch_from_def progress_listener_def)
qed

lemma sweeps_startTasks:
  "sweeps (trace (startTasks w now claims s)) = sweeps (trace s)"
  by (induction claims arbitrary: s) (simp_all add: sweeps_runTask_begin)

lemma availableCapacity_frame:
  "sweeps (trace (snd (availableCapacity probe s))) = sweeps (trace s)
   \<and> runningTasks (snd (availableCapacity probe s)) = runningTasks s"
  by (cases probe) (simp_all add: availableCapacity_def Let_def)

text \<open>
  C6, as the code has it. \<^verbatim>\<open>getTasks\<close> first computes the admissible capacity. When it
  is zero the method returns at once, with the debug record and without a call of
  \<^verbatim>\<open>gc.sweep\<close>. Otherwise it calls \<^verbatim>\<open>gc.sweep\<close> exactly once in the cycle, with
  \<^verbatim>\<open>true\<close> exactly when the registry is empty, whatever the later stages do.
\<close>

theorem gc_sweep_unless_capacity_zero:
  "(fst (availableCapacity (w_deviceCapacity w) s) = 0 \<longrightarrow>
      getTasks w now s =
        Returns (emit [Debug ''not calling claimWork because capacity is zero'']
                   (snd (availableCapacity (w_deviceCapacity w) s)))
      \<and> sweeps (trace (outcome_listener (getTasks w now s))) = sweeps (trace s))
   \<and> (fst (availableCapacity (w_deviceCapacity w) s) \<noteq> 0 \<longrightarrow>
      sweeps (trace (outcome_listener (getTasks w now s))) =
        sweeps (trace s) @ [runningTasks s = []])"
  using availableCapacity_frame [where probe = "w_deviceCapacity w" and s = s]
  by (cases "availableCapacity (w_deviceCapacity w) s")
     (auto simp add: getTasks_def Let_def outcome_listener_def sweeps_startTasks
       split: option.splits sum.splits bool.splits)

theorem gc_sweep_unless_capacity_zero_witness:
  "fst (availableCapacity (w_deviceCapacity example_world) example_listener) = 2
   \<and> sweeps (trace (outcome_listener (getTasks example_world 10 example_listener))) = [True]
   \<and> fst (availableCapacity (w_deviceCapacity probe_fails) example_listener) = 0
   \<and> sweeps (trace (outcome_listener (getTasks probe_fails 10 example_listener))) = []"
  using gc_sweep_unless_capacity_zero [where w = example_world and s = example_listener and now = 10]
    gc_sweep_unless_capacity_zero [where w = probe_fails and s = example_listener and now = 10]
  by (simp add: availableCapacity_def Let_def example_world_def example_listener_def
      probe_fails_def outcome_listener_def emit_def)

text \<open>Scenario S2 on the code: the device probe throws on an idle worker. The cycle logs
  the alert and the adjustment, finds the admissible capacity zero and returns; the trace
  has no call of \<^verbatim>\<open>gc.sweep\<close>.\<close>

theorem gc_sweep_every_cycle_counterexample:
  "getTasks probe_fails 10 example_listener =
     Returns (example_listener\<lparr>lastKnownCapacity := 0,
        trace := [Log ''[alert-operator] error determining device capacity''
                    [FStr ''message'' ''no device manager''],
                  Log ''[info] host capacity adjusted'' [],
                  Debug ''not calling claimWork because capacity is zero'']\<rparr>)
   \<and> sweeps (trace (outcome_listener (getTasks probe_fails 10 example_listener))) = []"
  by (simp add: getTasks_def availableCapacity_def Let_def example_world_def
      example_listener_def probe_fails_def emit_def outcome_listener_def)

subsection \<open>Immediate shutdown\<close>







end
